theory Spec2Isabelle
  imports Complex_Main "HOL-Library.Word"
begin

unbundle bit_operations_syntax

section \<open>Bytes, Python integers and the conversions the scripts use\<close>

text \<open>
  A Python \<open>bytes\<close> object is a list of 8-bit words; iterating over it or indexing it
  gives a Python \<open>int\<close> in 0..255, modelled by \<open>uint\<close>. Python's own integers are
  unbounded and are modelled by \<open>int\<close>.
\<close>

type_synonym bytes = "8 word list"

text \<open>\<open>x.to_bytes(1, "big")\<close>: OverflowError outside 0..255.\<close>

definition to_bytes1 :: "int \<Rightarrow> bytes option" where
  "to_bytes1 x = (if 0 \<le> x \<and> x < 256 then Some [word_of_int x] else None)"

text \<open>\<open>x.to_bytes(2, byteorder="little")\<close>: OverflowError outside 0..65535.\<close>

definition to_bytes2_little :: "int \<Rightarrow> bytes option" where
  "to_bytes2_little x =
     (if 0 \<le> x \<and> x < 65536 then Some [word_of_int (x mod 256), word_of_int (x div 256)]
      else None)"

text \<open>\<open>int.from_bytes(bs, "little")\<close>.\<close>

fun from_bytes_little :: "bytes \<Rightarrow> int" where
  "from_bytes_little [] = 0"
| "from_bytes_little (b # bs) = uint b + 256 * from_bytes_little bs"

text \<open>The slice \<open>xs[i:j]\<close> for non-negative \<open>i\<close>, \<open>j\<close>; it never raises.\<close>

definition slice :: "bytes \<Rightarrow> nat \<Rightarrow> nat \<Rightarrow> bytes" where
  "slice xs i j = take (j - i) (drop i xs)"

text \<open>
  \<open>xs[i]\<close> on bytes: a negative index counts from the end, and an index out of range
  raises IndexError, which is the value \<open>None\<close> here.
\<close>

definition py_index :: "bytes \<Rightarrow> int \<Rightarrow> int option" where
  "py_index xs i =
     (if 0 \<le> i \<and> i < int (length xs) then Some (uint (xs ! nat i))
      else if i < 0 \<and> - i \<le> int (length xs) then Some (uint (xs ! nat (int (length xs) + i)))
      else None)"

text \<open>\<open>sub in xs\<close> and \<open>xs.find(sub)\<close> on bytes (\<open>find\<close> gives -1 where this gives \<open>None\<close>).\<close>

definition starts_with :: "bytes \<Rightarrow> bytes \<Rightarrow> bool" where
  "starts_with xs sub = (take (length sub) xs = sub)"

fun bytes_find :: "bytes \<Rightarrow> bytes \<Rightarrow> nat option" where
  "bytes_find [] sub = (if sub = [] then Some 0 else None)"
| "bytes_find (x # xs) sub =
     (if starts_with (x # xs) sub then Some 0 else map_option Suc (bytes_find xs sub))"


subsection \<open>Hexadecimal text\<close>

text \<open>
  The scripts pass frames around as hexadecimal text: \<open>bs.hex()\<close> writes two lower-case
  digits per byte, \<open>bs.hex().upper()\<close> and the format \<open>02X\<close> two upper-case digits, and
  \<open>bytes.fromhex\<close> reads pairs of digits of either case, skipping blanks between pairs,
  and raises ValueError on anything else.
\<close>

definition hex_digit_upper :: "nat \<Rightarrow> char" where
  "hex_digit_upper n = ''0123456789ABCDEF'' ! n"


definition hex_upper :: "bytes \<Rightarrow> string" where
  "hex_upper bs =
     concat (map (\<lambda>b. [hex_digit_upper (unat b div 16), hex_digit_upper (unat b mod 16)]) bs)"



definition hex_value :: "char \<Rightarrow> nat option" where
  "hex_value c =
     (case map_of (zip ''0123456789abcdef'' [0, 1, 2, 3, 4, 5, 6, 7, 8, 9, 10, 11, 12, 13, 14, 15]) c of
        Some v \<Rightarrow> Some v
      | None \<Rightarrow> map_of (zip ''ABCDEF'' [10, 11, 12, 13, 14, 15]) c)"

definition is_blank :: "char \<Rightarrow> bool" where
  "is_blank c = (c = CHR '' '' \<or> c = CHR 0x09 \<or> c = CHR 0x0A \<or> c = CHR 0x0B
                 \<or> c = CHR 0x0C \<or> c = CHR 0x0D)"

fun fromhex :: "string \<Rightarrow> bytes option" where
  "fromhex [] = Some []"
| "fromhex [c] = (if is_blank c then Some [] else None)"
| "fromhex (c # d # cs) =
     (if is_blank c then fromhex (d # cs)
      else case (hex_value c, hex_value d) of
             (Some h, Some l) \<Rightarrow> map_option ((#) (word_of_nat (16 * h + l))) (fromhex cs)
           | _ \<Rightarrow> None)"

section \<open>Protocol constants of the high-speed board script\<close>

definition AUTO_PUSH_REG :: int where "AUTO_PUSH_REG = 0x0017"
definition VERSION_REG :: int where "VERSION_REG = 0x0000"
definition VERSION_DATA_LEN :: int where "VERSION_DATA_LEN = 0x000F"
definition TIMEOUT_CMD :: real where "TIMEOUT_CMD = 1.0"
definition REQ_HEAD :: bytes where "REQ_HEAD = [0x55, 0xAA]"
definition RESP_HEAD_GENERAL :: bytes where "RESP_HEAD_GENERAL = [0xAA, 0x55]"
definition RESERVED :: bytes where "RESERVED = [0x00]"
definition FUNC_READ :: int where "FUNC_READ = 0x03"
definition FUNC_WRITE :: int where "FUNC_WRITE = 0x10"

section \<open>Checksum\<close>

text \<open>
  \<open>calc_lrc\<close> of the high-speed board script: an 8-bit running sum, then complement,
  plus one, masked to 8 bits. Its \<open>except\<close> branch (return 0) cannot be entered for a
  bytes argument: the body only adds and masks integers.
\<close>

definition calc_lrc :: "bytes \<Rightarrow> int" where
  "calc_lrc data =
     (let lrc_sum = foldl (\<lambda>lrc_sum byte. (lrc_sum + uint byte) AND 0xFF) 0 data
      in ((NOT lrc_sum) + 1) AND 0xFF)"

text \<open>\<open>calculate_lrc\<close> of the single-port adapter script.\<close>

definition calculate_lrc :: "bytes \<Rightarrow> int" where
  "calculate_lrc data =
     (let lrc = foldl (\<lambda>lrc byte. (lrc + uint byte) AND 0xFF) 0 data
      in ((NOT lrc) + 1) AND 0xFF)"

section \<open>Request frames\<close>

text \<open>
  \<open>build_request_frame\<close>: head, reserved byte, function code, register address and data
  length (both little-endian), the data to write, and the checksum of all of these.
  \<open>request_full_frame\<close> is the local \<open>full_frame\<close>; the function returns its upper-case
  hexadecimal text. Any exception (an integer that does not fit its field) is caught
  and gives \<open>None\<close>. The comparisons with the two example commands only log a warning.
\<close>

definition request_full_frame :: "int \<Rightarrow> int \<Rightarrow> int \<Rightarrow> bytes \<Rightarrow> bytes option" where
  "request_full_frame func_code reg_addr data_len write_data =
     (case to_bytes2_little reg_addr of None \<Rightarrow> None
      | Some reg_addr_bytes \<Rightarrow>
     (case to_bytes2_little data_len of None \<Rightarrow> None
      | Some data_len_bytes \<Rightarrow>
     (case to_bytes1 func_code of None \<Rightarrow> None
      | Some func_byte \<Rightarrow>
        (let frame_without_lrc =
               REQ_HEAD @ RESERVED @ func_byte @ reg_addr_bytes @ data_len_bytes @ write_data
         in case to_bytes1 (calc_lrc frame_without_lrc) of None \<Rightarrow> None
            | Some lrc \<Rightarrow> Some (frame_without_lrc @ lrc)))))"

definition build_request_frame :: "int \<Rightarrow> int \<Rightarrow> int \<Rightarrow> bytes \<Rightarrow> string option" where
  "build_request_frame func_code reg_addr data_len write_data =
     map_option hex_upper (request_full_frame func_code reg_addr data_len write_data)"

section \<open>Parsing responses\<close>

text \<open>
  The dictionary that \<open>parse_response\<close> returns, with its keys as fields. The key
  \<open>error_code\<close> exists only in the dictionary of an error response.
\<close>

record parsed_response =
  is_error :: bool
  reserved :: int
  func_code :: int
  reg_addr :: int
  data_len :: int
  actual_data_len :: int
  data :: bytes
  lrc_valid :: bool
  lrc_calc :: int
  lrc_recv :: int
  error_code :: "int option"

text \<open>
  Every parser of the script returns \<open>None\<close> when it rejects a buffer, after logging
  why. The model keeps the reason: the frame is too short, the head is wrong, the
  function code is unknown, or an exception reached the \<open>except\<close> branch.
\<close>

datatype parse_failure = FrameTooShort | BadHead | UnknownFunction | CaughtException

text \<open>What the Python caller holds: \<open>None\<close> for every rejection.\<close>

definition returned_dict :: "parse_failure + 'a \<Rightarrow> 'a option" where
  "returned_dict r = (case r of Inl _ \<Rightarrow> None | Inr parsed \<Rightarrow> Some parsed)"

text \<open>
  \<open>parse_response\<close>. Indexing goes through \<open>py_index\<close>, so that an index out of range
  would show as \<open>CaughtException\<close>.
\<close>

definition parse_response :: "bytes \<Rightarrow> parse_failure + parsed_response" where
  "parse_response response =
     (if length response < 8 then Inl FrameTooShort
      else if slice response 0 2 \<noteq> RESP_HEAD_GENERAL then Inl BadHead
      else
        case py_index response 2 of None \<Rightarrow> Inl CaughtException | Some byte2 \<Rightarrow>
        case py_index response 3 of None \<Rightarrow> Inl CaughtException | Some byte3 \<Rightarrow>
        case (if length response \<ge> 9 then py_index response (- 1) else Some 0) of
          None \<Rightarrow> Inl CaughtException
        | Some last_byte \<Rightarrow>
          (let parsed = \<lparr> is_error = False,
                          reserved = byte2,
                          func_code = byte3,
                          reg_addr = from_bytes_little (slice response 4 6),
                          data_len = from_bytes_little (slice response 6 8),
                          actual_data_len =
                            (if length response > 8 then int (length response) - 9 else 0),
                          data = [],
                          lrc_valid = False,
                          lrc_calc = 0,
                          lrc_recv = last_byte,
                          error_code = None \<rparr>
           in if func_code parsed AND 0x80 \<noteq> 0
              then Inr (parsed \<lparr> is_error := True,
                                error_code := Some (func_code parsed AND 0x7F) \<rparr>)
              else if func_code parsed \<noteq> FUNC_READ \<and> func_code parsed \<noteq> FUNC_WRITE
              then Inl UnknownFunction
              else
                (let parsed =
                       (if data_len parsed > 0
                           \<and> int (length response) \<ge> 8 + data_len parsed + 1
                        then parsed \<lparr> data := slice response 8 (nat (8 + data_len parsed)) \<rparr>
                        else if data_len parsed > 0
                        then parsed \<lparr> data := (if length response > 8
                                                 then drop 8 (butlast response) else []) \<rparr>
                        else parsed);
                     parsed =
                       (if length response \<ge> 9
                        then (let c = calc_lrc (butlast response)
                              in parsed \<lparr> lrc_calc := c, lrc_valid := (c = lrc_recv parsed) \<rparr>)
                        else parsed)
                 in Inr parsed)))"



section \<open>The serial port\<close>

text \<open>
  The port is the environment of the scripts. What it will present is given in advance
  as a schedule: one \<open>poll\<close> for every test of a reading loop's condition, holding the
  clock reading of that test, the value of \<open>in_waiting\<close>, the bytes that \<open>read\<close> then
  hands over, and the clock reading taken when the loop resets its timer. \<open>PortError\<close>
  is a poll at which the port raises instead. Clock readings are real numbers (seconds).
  What the script does to the port is appended to \<open>effects\<close>, in order.
\<close>

datatype poll =
    Poll (now: real) (in_waiting: nat) (chunk: bytes) (now_reset: real)
  | PortError (now: real)

datatype effect = FlushOutput | Write bytes | Sleep real

record port =
  write_report :: "bytes \<Rightarrow> nat option"
  clock :: real
  rx :: "poll list"
  effects :: "effect list"

text \<open>
  \<open>write_report\<close> is what \<open>ser.write\<close> answers for given bytes: the count it reports, or
  \<open>None\<close> when it raises. \<open>clock\<close> is the reading of \<open>time.time()\<close> at the start of a
  reading call.
\<close>

definition sleep :: "real \<Rightarrow> port \<Rightarrow> port" where
  "sleep seconds ser = ser \<lparr> effects := effects ser @ [Sleep seconds] \<rparr>"

text \<open>
  A call that polls the port returns a value, or is still polling when the schedule
  ends: then the schedule does not say what the call returns.
\<close>

datatype 'a outcome = Returns 'a | Unfinished

text \<open>How a reading loop ends; \<open>StillPolling\<close> keeps the loop's variables.\<close>

datatype loop_exit =
    Broke bytes
  | Expired bytes
  | Raised
  | StillPolling real bytes

section \<open>Sending and reading in the high-speed board script\<close>

text \<open>\<open>send_hex_cmd\<close>: false when the text is not hexadecimal, when the port raises, or
  when it reports another count than the length of the command.\<close>

definition send_hex_cmd :: "port \<Rightarrow> string \<Rightarrow> port \<times> bool" where
  "send_hex_cmd ser hex_cmd =
     (case fromhex hex_cmd of
        None \<Rightarrow> (ser, False)
      | Some cmd_bytes \<Rightarrow>
          (let ser = ser \<lparr> effects := effects ser @ [FlushOutput, Write cmd_bytes] \<rparr>
           in case write_report ser cmd_bytes of
                None \<Rightarrow> (ser, False)
              | Some sent_len \<Rightarrow> (ser, sent_len = length cmd_bytes)))"

text \<open>
  The loop of \<open>read_serial_data\<close>, with its variables \<open>start_time\<close> and \<open>recv_data\<close>.
  \<open>expected_head and expected_head in recv_data\<close> is false for \<open>None\<close> and for an empty
  head; \<open>head_pos\<close> is the first position of the head.
\<close>

fun read_loop ::
  "real \<Rightarrow> bytes option \<Rightarrow> real \<Rightarrow> bytes \<Rightarrow> effect list \<Rightarrow> poll list
     \<Rightarrow> loop_exit \<times> effect list \<times> poll list" where
  "read_loop timeout expected_head start_time recv_data fx [] =
     (StillPolling start_time recv_data, fx, [])"
| "read_loop timeout expected_head start_time recv_data fx (PortError t # ps) =
     (if \<not> (t - start_time < timeout) then (Expired recv_data, fx, ps)
      else (Raised, fx, ps))"
| "read_loop timeout expected_head start_time recv_data fx (Poll t n c t' # ps) =
     (if \<not> (t - start_time < timeout) then (Expired recv_data, fx, ps)
      else if n > 0 then
        (let recv_data = recv_data @ c;
             head_pos = (case expected_head of
                           None \<Rightarrow> None
                         | Some h \<Rightarrow> if h = [] then None else bytes_find recv_data h)
         in case head_pos of
              Some k \<Rightarrow> (Broke (drop k recv_data), fx, ps)
            | None \<Rightarrow>
                read_loop timeout expected_head t' recv_data
                  (fx @ [Sleep 0.005, Sleep 0.001]) ps)
      else read_loop timeout expected_head start_time recv_data (fx @ [Sleep 0.001]) ps)"

text \<open>\<open>read_serial_data\<close>: the bytes received if there are any, otherwise \<open>None\<close>;
  \<open>None\<close> also when the port raised.\<close>

definition read_serial_data ::
  "port \<Rightarrow> real \<Rightarrow> bytes option \<Rightarrow> port \<times> bytes option outcome" where
  "read_serial_data ser timeout expected_head =
     (case read_loop timeout expected_head (clock ser) [] (effects ser) (rx ser) of
        (ending, fx, rest) \<Rightarrow>
          (ser \<lparr> rx := rest, effects := fx \<rparr>,
           case ending of
             Broke recv_data \<Rightarrow> Returns (if recv_data \<noteq> [] then Some recv_data else None)
           | Expired recv_data \<Rightarrow> Returns (if recv_data \<noteq> [] then Some recv_data else None)
           | Raised \<Rightarrow> Returns None
           | StillPolling _ _ \<Rightarrow> Unfinished))"

section \<open>Register access\<close>

text \<open>
  \<open>read_register\<close> returns \<open>None\<close> and \<open>write_register\<close> returns \<open>False\<close> on every
  failure, after logging which one it is. The model keeps the failure: one constructor
  for each place where the functions give up.
\<close>

datatype register_failure =
    InvalidLength
  | BuildFailed
  | SendFailed
  | NoResponse
  | OperationFailed
  | AutoPushRejected
  | WriteStatusError int



text \<open>\<open>read_register\<close> (the register address is the parameter \<open>addr\<close>).\<close>

definition read_register ::
  "port \<Rightarrow> int \<Rightarrow> int \<Rightarrow> port \<times> (register_failure + bytes) outcome" where
  "read_register ser addr read_len =
     (if \<not> (1 \<le> read_len \<and> read_len \<le> 512) then (ser, Returns (Inl InvalidLength))
      else case build_request_frame FUNC_READ addr read_len [] of
        None \<Rightarrow> (ser, Returns (Inl BuildFailed))
      | Some read_frame \<Rightarrow>
        (case send_hex_cmd ser read_frame of
           (ser, False) \<Rightarrow> (ser, Returns (Inl SendFailed))
         | (ser, True) \<Rightarrow>
           (case read_serial_data (sleep 0.2 ser) TIMEOUT_CMD (Some RESP_HEAD_GENERAL) of
              (ser, Unfinished) \<Rightarrow> (ser, Unfinished)
            | (ser, Returns None) \<Rightarrow> (ser, Returns (Inl NoResponse))
            | (ser, Returns (Some response)) \<Rightarrow>
              (case parse_response response of
                 Inl _ \<Rightarrow> (ser, Returns (Inl OperationFailed))
               | Inr parsed \<Rightarrow>
                   if is_error parsed \<or> func_code parsed \<noteq> FUNC_READ
                   then (ser, Returns (Inl OperationFailed))
                   else (ser, Returns (Inr (data parsed)))))))"


section \<open>The single-port adapter script\<close>













section \<open>Example ports\<close>

text \<open>
  The port used in the examples: it reports every write as complete, its clock reads 0
  when a reading call starts, nothing has been done to it yet, and it presents the
  given polls.
\<close>

definition fresh_port :: "poll list \<Rightarrow> port" where
  "fresh_port polls = \<lparr> write_report = Some \<circ> length, clock = 0, rx = polls, effects = [] \<rparr>"

section \<open>Properties of the checksum\<close>

lemma and_255_mod: "(x::int) AND 0xFF = x mod 256"
proof -
  have "x AND mask 8 = take_bit 8 x"
    by (simp only: take_bit_eq_mask)
  then show ?thesis
    by (simp add: take_bit_eq_mod mask_eq_exp_minus_1)
qed

lemma lrc_fold_sum:
  "foldl (\<lambda>s b. (s + uint b) AND 0xFF) a xs = (a + sum_list (map uint xs)) mod 256"
    if "0 \<le> a" "a < 256" for a :: int and xs :: bytes
  using that
proof (induction xs arbitrary: a)
  case Nil
  then show ?case by simp
next
  case (Cons b bs)
  have step: "(a + uint b) AND 0xFF = (a + uint b) mod 256"
    by (rule and_255_mod)
  have "foldl (\<lambda>s b. (s + uint b) AND 0xFF) ((a + uint b) mod 256) bs
        = ((a + uint b) mod 256 + sum_list (map uint bs)) mod 256"
    by (rule Cons.IH) simp_all
  then show ?case
    by (simp add: step mod_add_left_eq add.assoc)
qed

lemma calc_lrc_eq: "calc_lrc xs = (- sum_list (map uint xs)) mod 256"
proof -
  have "foldl (\<lambda>s b. (s + uint b) AND 0xFF) 0 xs = sum_list (map uint xs) mod 256"
    using lrc_fold_sum [of 0 xs] by simp
  then show ?thesis
    by (simp add: calc_lrc_def and_255_mod not_int_def mod_minus_eq)
qed

lemma calculate_lrc_eq: "calculate_lrc xs = (- sum_list (map uint xs)) mod 256"
proof -
  have "foldl (\<lambda>s b. (s + uint b) AND 0xFF) 0 xs = sum_list (map uint xs) mod 256"
    using lrc_fold_sum [of 0 xs] by simp
  then show ?thesis
    by (simp add: calculate_lrc_def and_255_mod not_int_def mod_minus_eq)
qed

section \<open>Conversions and indexing\<close>

lemma hex_digit_upper_table:
  "list_all (\<lambda>n. hex_value (hex_digit_upper n) = Some n \<and> \<not> is_blank (hex_digit_upper n))
     [0..<16]"
  by code_simp

lemma hex_digit_upper_value:
  "n < 16 \<Longrightarrow> hex_value (hex_digit_upper n) = Some n \<and> \<not> is_blank (hex_digit_upper n)"
  using hex_digit_upper_table by (simp add: list_all_iff)

lemma byte_of_nibbles: "word_of_nat (16 * (unat b div 16) + unat b mod 16) = b" for b :: "8 word"
  by simp

lemma fromhex_hex_upper: "fromhex (hex_upper bs) = Some bs"
proof (induction bs)
  case Nil
  then show ?case by (simp add: hex_upper_def)
next
  case (Cons b bs)
  have hi: "unat b div 16 < 16"
    using unsigned_less [of b, where ?'a = nat] by simp
  have lo: "unat b mod 16 < 16"
    by simp
  have split: "hex_upper (b # bs)
      = hex_digit_upper (unat b div 16) # hex_digit_upper (unat b mod 16) # hex_upper bs"
    by (simp add: hex_upper_def)
  show ?case
    using Cons.IH hex_digit_upper_value [OF hi] hex_digit_upper_value [OF lo]
    by (simp add: split byte_of_nibbles del: of_nat_add of_nat_mult)
qed

lemma py_index_nat: "i < length xs \<Longrightarrow> py_index xs (int i) = Some (uint (xs ! i))"
  by (simp add: py_index_def)

lemma py_index_last: "xs \<noteq> [] \<Longrightarrow> py_index xs (- 1) = Some (uint (last xs))"
  by (cases xs rule: rev_cases) (auto simp: py_index_def nth_append)


lemma to_bytes1_lrc: "to_bytes1 (calc_lrc b) = Some [word_of_int (calc_lrc b)]"
  by (simp add: to_bytes1_def calc_lrc_eq)

lemma uint_lrc_byte: "uint (word_of_int (calc_lrc b) :: 8 word) = calc_lrc b"
  by (simp add: uint_word_of_int calc_lrc_eq)

lemma calc_lrc_range: "0 \<le> calc_lrc b" "calc_lrc b < 256"
  by (simp_all add: calc_lrc_eq)

lemma request_full_frame_Some:
  "request_full_frame f a n w = Some frame \<longleftrightarrow>
     0 \<le> a \<and> a < 65536 \<and> 0 \<le> n \<and> n < 65536 \<and> 0 \<le> f \<and> f < 256 \<and>
     frame = [0x55, 0xAA, 0x00, word_of_int f, word_of_int (a mod 256), word_of_int (a div 256),
              word_of_int (n mod 256), word_of_int (n div 256)] @ w
             @ [word_of_int (calc_lrc ([0x55, 0xAA, 0x00, word_of_int f, word_of_int (a mod 256),
                  word_of_int (a div 256), word_of_int (n mod 256), word_of_int (n div 256)] @ w))]"
  by (auto simp: request_full_frame_def to_bytes2_little_def to_bytes1_def calc_lrc_range
        REQ_HEAD_def RESERVED_def Let_def split: option.splits)

lemma parse_response_short: "length r < 8 \<Longrightarrow> parse_response r = Inl FrameTooShort"
  by (simp add: parse_response_def)

lemma parse_response_no_exception: "parse_response r \<noteq> Inl CaughtException"
proof (cases "length r < 8")
  case True
  then show ?thesis by (simp add: parse_response_short)
next
  case False
  then have i2: "py_index r 2 = Some (uint (r ! 2))" and i3: "py_index r 3 = Some (uint (r ! 3))"
    using py_index_nat [of 2 r] py_index_nat [of 3 r] by simp_all
  have il: "py_index r (- 1) = Some (uint (last r))"
    using False by (intro py_index_last) auto
  show ?thesis
    by (simp add: parse_response_def i2 i3 il Let_def)
qed

lemma parse_response_checksum_step:
  assumes "9 \<le> length r"
    and "take 2 r = [0xAA, 0x55]"
    and "uint (r ! 3) = FUNC_READ \<or> uint (r ! 3) = FUNC_WRITE"
  shows "\<exists>p. parse_response r = Inr p
             \<and> lrc_calc p = calc_lrc (butlast r)
             \<and> lrc_recv p = uint (last r)
             \<and> lrc_valid p = (calc_lrc (butlast r) = uint (last r))
             \<and> func_code p = uint (r ! 3)
             \<and> data_len p = from_bytes_little (slice r 6 8)
             \<and> \<not> is_error p"
proof -
  have i2: "py_index r 2 = Some (uint (r ! 2))" and i3: "py_index r 3 = Some (uint (r ! 3))"
    using assms(1) py_index_nat [of 2 r] py_index_nat [of 3 r] by simp_all
  have il: "py_index r (- 1) = Some (uint (last r))"
    using assms(1) by (intro py_index_last) auto
  have no_error: "uint (r ! 3) AND 0x80 = 0"
    using assms(3) by (auto simp: FUNC_READ_def FUNC_WRITE_def)
  show ?thesis
    using assms no_error
    by (auto simp: parse_response_def i2 i3 il Let_def slice_def RESP_HEAD_GENERAL_def)
qed

lemma calc_lrc_head_swap: "calc_lrc (x # y # xs) = calc_lrc (y # x # xs)"
  by (simp add: calc_lrc_eq add.left_commute)

lemma parse_response_bad_head:
  "8 \<le> length r \<Longrightarrow> take 2 r \<noteq> [0xAA, 0x55] \<Longrightarrow> parse_response r = Inl BadHead"
  by (simp add: parse_response_def slice_def RESP_HEAD_GENERAL_def)

section \<open>The reading loop\<close>




section \<open>Register access: building, sending, deciding\<close>

lemma build_request_frame_hex:
  "build_request_frame f a n w = map_option hex_upper (request_full_frame f a n w)"
  by (simp add: build_request_frame_def)

lemma send_hex_cmd_frame:
  "send_hex_cmd ser (hex_upper frame)
   = (ser \<lparr> effects := effects ser @ [FlushOutput, Write frame] \<rparr>,
      write_report ser frame = Some (length frame))"
  by (auto simp: send_hex_cmd_def fromhex_hex_upper Let_def split: option.splits)

lemma read_frame_built:
  assumes "0 \<le> n" "n < 65536" "0 \<le> a" "a < 65536" "0 \<le> f" "f < 256"
  shows "\<exists>frame. request_full_frame f a n w = Some frame
            \<and> build_request_frame f a n w = Some (hex_upper frame)
            \<and> length frame = 9 + length w
            \<and> uint (frame ! 3) = f
            \<and> from_bytes_little (slice frame 4 6) = a
            \<and> from_bytes_little (slice frame 6 8) = n
            \<and> slice frame 8 (8 + length w) = w"
proof -
  have lo: "uint (word_of_int (k mod 256) :: 8 word) = k mod 256" for k :: int
    by (simp add: uint_word_of_int)
  have hi: "uint (word_of_int (k div 256) :: 8 word) = k div 256" if "0 \<le> k" "k < 65536" for k :: int
    using that by (simp add: uint_word_of_int)
  have fb: "uint (word_of_int f :: 8 word) = f"
    using assms(5,6) by (simp add: uint_word_of_int)
  obtain frame where frame: "request_full_frame f a n w = Some frame"
    using assms by (auto simp: request_full_frame_Some)
  then show ?thesis
    using assms hi [of a] hi [of n] lo [of a] lo [of n] fb
    by (auto simp: request_full_frame_Some build_request_frame_hex slice_def)
qed

lemma parse_response_payload:
  assumes "8 \<le> length r"
    and "take 2 r = [0xAA, 0x55]"
    and "uint (r ! 3) = FUNC_READ \<or> uint (r ! 3) = FUNC_WRITE"
  shows "\<exists>p. parse_response r = Inr p \<and> \<not> is_error p \<and> func_code p = uint (r ! 3)
             \<and> data p = (let n = from_bytes_little (slice r 6 8)
                          in if 0 < n \<and> 8 + n + 1 \<le> int (length r) then slice r 8 (nat (8 + n))
                             else if 0 < n \<and> 8 < length r then drop 8 (butlast r)
                             else [])"
proof -
  have i2: "py_index r 2 = Some (uint (r ! 2))" and i3: "py_index r 3 = Some (uint (r ! 3))"
    using assms(1) py_index_nat [of 2 r] py_index_nat [of 3 r] by simp_all
  have il: "py_index r (- 1) = Some (uint (last r))"
    using assms(1) by (intro py_index_last) auto
  have no_error: "uint (r ! 3) AND 0x80 = 0"
    using assms(3) by (auto simp: FUNC_READ_def FUNC_WRITE_def)
  show ?thesis
    using assms no_error
    by (auto simp: parse_response_def i2 i3 il Let_def slice_def RESP_HEAD_GENERAL_def)
qed

lemma parse_response_known_function:
  "parse_response r = Inr p \<Longrightarrow> \<not> is_error p \<Longrightarrow>
     8 \<le> length r \<and> take 2 r = [0xAA, 0x55] \<and> func_code p = uint (r ! 3)
     \<and> (uint (r ! 3) = FUNC_READ \<or> uint (r ! 3) = FUNC_WRITE) \<and> uint (r ! 3) AND 0x80 = 0"
proof -
  assume p: "parse_response r = Inr p" and ok: "\<not> is_error p"
  have len: "8 \<le> length r"
    using p by (auto simp: parse_response_def split: if_splits)
  have i2: "py_index r 2 = Some (uint (r ! 2))" and i3: "py_index r 3 = Some (uint (r ! 3))"
    using len py_index_nat [of 2 r] py_index_nat [of 3 r] by simp_all
  have il: "py_index r (- 1) = Some (uint (last r))"
    using len by (intro py_index_last) auto
  show ?thesis
    using p ok len
    by (auto simp: parse_response_def i2 i3 il Let_def slice_def RESP_HEAD_GENERAL_def
          split: if_splits)
qed

lemma read_decision:
  "(case parse_response r of
      Inl _ \<Rightarrow> (s, Returns (Inl OperationFailed))
    | Inr parsed \<Rightarrow>
        if is_error parsed \<or> func_code parsed \<noteq> FUNC_READ
        then (s, Returns (Inl OperationFailed))
        else (s, Returns (Inr (data parsed))))
   = (s, Returns
        (if length r < 8 \<or> take 2 r \<noteq> [0xAA, 0x55] \<or> uint (r ! 3) AND 0x80 \<noteq> 0
            \<or> uint (r ! 3) \<noteq> FUNC_READ
         then Inl OperationFailed
         else Inr (let n = from_bytes_little (slice r 6 8)
                   in if 0 < n \<and> 8 + n + 1 \<le> int (length r) then slice r 8 (nat (8 + n))
                      else if 0 < n \<and> 8 < length r then drop 8 (butlast r)
                      else [])))"
proof (cases "8 \<le> length r \<and> take 2 r = [0xAA, 0x55] \<and> uint (r ! 3) = FUNC_READ")
  case True
  then obtain p where p: "parse_response r = Inr p" "\<not> is_error p" "func_code p = uint (r ! 3)"
    "data p = (let n = from_bytes_little (slice r 6 8)
               in if 0 < n \<and> 8 + n + 1 \<le> int (length r) then slice r 8 (nat (8 + n))
                  else if 0 < n \<and> 8 < length r then drop 8 (butlast r)
                  else [])"
    using parse_response_payload [of r] by blast
  have "uint (r ! 3) AND 0x80 = 0"
    using True by (simp add: FUNC_READ_def)
  then show ?thesis
    using True p by simp
next
  case False
  have fails: "is_error p \<or> func_code p \<noteq> FUNC_READ" if "parse_response r = Inr p" for p
    using parse_response_known_function [OF that] False by auto
  have cond: "length r < 8 \<or> take 2 r \<noteq> [0xAA, 0x55] \<or> uint (r ! 3) AND 0x80 \<noteq> 0
            \<or> uint (r ! 3) \<noteq> FUNC_READ"
    using False by auto
  show ?thesis
    using fails cond by (cases "parse_response r") auto
qed







section \<open>The single-port adapter script: exits and exceptions\<close>










section \<open>The claims about the checksum\<close>

text \<open>
  C1. For every byte sequence, both checksum functions return the negated byte sum
  modulo 256, a value in 0..255, and they agree with each other. The functions are
  total: there is no input on which they fail.
\<close>

theorem lrc_is_negated_sum:
  "calc_lrc b = (- sum_list (map uint b)) mod 256
   \<and> calculate_lrc b = (- sum_list (map uint b)) mod 256
   \<and> 0 \<le> calc_lrc b \<and> calc_lrc b \<le> 255
   \<and> calculate_lrc b = calc_lrc b"
  by (simp add: calc_lrc_eq calculate_lrc_eq)

text \<open>
  C2 (as amended). Appending the checksum of a byte sequence to it gives a sequence that
  satisfies the verification step of the parser: the checksum of all bytes but the last
  is the last byte, which is what \<open>response[-1]\<close> reads. Every frame that
  \<open>build_request_frame\<close> produces satisfies this equation. \<open>parse_response\<close> itself
  rejects the unmodified frame, because its head is 55 AA and not AA 55; with the head
  replaced by AA 55, which has the same byte sum, a read or write frame is parsed with
  \<open>lrc_valid\<close> true.
\<close>

theorem lrc_appended_is_valid:
  "(\<exists>l. to_bytes1 (calc_lrc b) = Some l
        \<and> calc_lrc (butlast (b @ l)) = uint (last (b @ l))
        \<and> py_index (b @ l) (- 1) = Some (calc_lrc (butlast (b @ l))))
   \<and> (request_full_frame f a n w = Some frame \<longrightarrow>
        calc_lrc (butlast frame) = uint (last frame)
        \<and> parse_response frame = Inl BadHead
        \<and> (f = FUNC_READ \<or> f = FUNC_WRITE \<longrightarrow>
             (\<exists>p. parse_response (RESP_HEAD_GENERAL @ drop 2 frame) = Inr p \<and> lrc_valid p)))"
proof (intro conjI impI)
  show "\<exists>l. to_bytes1 (calc_lrc b) = Some l
        \<and> calc_lrc (butlast (b @ l)) = uint (last (b @ l))
        \<and> py_index (b @ l) (- 1) = Some (calc_lrc (butlast (b @ l)))"
    by (simp add: to_bytes1_lrc uint_lrc_byte py_index_last)
next
  assume built: "request_full_frame f a n w = Some frame"
  define body where "body = [0x00, word_of_int f, word_of_int (a mod 256), word_of_int (a div 256),
              word_of_int (n mod 256), word_of_int (n div 256)] @ w"
  have frame: "frame = 0x55 # 0xAA # body @ [word_of_int (calc_lrc (0x55 # 0xAA # body))]"
    and f_range: "0 \<le> f" "f < 256"
    using built by (simp_all add: request_full_frame_Some body_def)
  show valid: "calc_lrc (butlast frame) = uint (last frame)"
    by (simp add: frame butlast_append uint_lrc_byte)
  show "parse_response frame = Inl BadHead"
    by (rule parse_response_bad_head) (simp_all add: frame body_def)
  assume func: "f = FUNC_READ \<or> f = FUNC_WRITE"
  let ?r = "RESP_HEAD_GENERAL @ drop 2 frame"
  have r: "?r = 0xAA # 0x55 # body @ [word_of_int (calc_lrc (0x55 # 0xAA # body))]"
    by (simp add: frame RESP_HEAD_GENERAL_def)
  have len: "9 \<le> length ?r" and head: "take 2 ?r = [0xAA, 0x55]"
    by (simp_all add: r body_def)
  have "?r ! 3 = (word_of_int f :: 8 word)"
    by (simp add: r body_def)
  then have fc: "uint (?r ! 3) = FUNC_READ \<or> uint (?r ! 3) = FUNC_WRITE"
    using func by (auto simp: FUNC_READ_def FUNC_WRITE_def)
  have "calc_lrc (butlast ?r) = uint (last ?r)"
    by (simp add: r butlast_append uint_lrc_byte calc_lrc_head_swap [of "0xAA" "0x55"])
  then show "\<exists>p. parse_response ?r = Inr p \<and> lrc_valid p"
    using parse_response_checksum_step [OF len head fc] by auto
qed

theorem lrc_appended_is_valid_witness:
  "request_full_frame FUNC_READ 0 15 []
     = Some [0x55, 0xAA, 0x00, 0x03, 0x00, 0x00, 0x0F, 0x00, 0xEF]
   \<and> (FUNC_READ = FUNC_READ \<or> FUNC_READ = FUNC_WRITE)
   \<and> calc_lrc (butlast [0x55, 0xAA, 0x00, 0x03, 0x00, 0x00, 0x0F, 0x00, 0xEF])
       = uint (last [0x55, 0xAA, 0x00, 0x03, 0x00, 0x00, 0x0F, 0x00, 0xEF :: 8 word])
   \<and> parse_response [0x55, 0xAA, 0x00, 0x03, 0x00, 0x00, 0x0F, 0x00, 0xEF] = Inl BadHead
   \<and> (\<exists>p. parse_response
               (RESP_HEAD_GENERAL @ drop 2 [0x55, 0xAA, 0x00, 0x03, 0x00, 0x00, 0x0F, 0x00, 0xEF])
             = Inr p
            \<and> lrc_valid p)"
proof -
  let ?frame = "[0x55, 0xAA, 0x00, 0x03, 0x00, 0x00, 0x0F, 0x00, 0xEF] :: bytes"
  have built: "request_full_frame FUNC_READ 0 15 [] = Some ?frame"
    by code_simp
  show ?thesis
    using built lrc_appended_is_valid [of "[]" FUNC_READ 0 15 "[]" ?frame]
    by simp
qed

text \<open>
  C2 as stated fails: the frame built for reading the version register, parsed
  unmodified, gives no dictionary at all, so no \<open>lrc_valid\<close> that is true.
\<close>

theorem built_frame_rejected_by_parser:
  "request_full_frame FUNC_READ VERSION_REG VERSION_DATA_LEN []
     = Some [0x55, 0xAA, 0x00, 0x03, 0x00, 0x00, 0x0F, 0x00, 0xEF]
   \<and> parse_response [0x55, 0xAA, 0x00, 0x03, 0x00, 0x00, 0x0F, 0x00, 0xEF] = Inl BadHead
   \<and> returned_dict (parse_response [0x55, 0xAA, 0x00, 0x03, 0x00, 0x00, 0x0F, 0x00, 0xEF])
       = None"
  by code_simp

section \<open>The claim about the reference frames\<close>

text \<open>
  C3. The builder reproduces the two reference commands: writing 01 to register 0x0017
  gives the text 55AA00101700010001D8, and reading 15 bytes from register 0x0000 gives
  55AA000300000F00EF; \<open>bytes.fromhex\<close> of the texts, which is what is sent, are the
  bytes of \<open>full_frame\<close>.
\<close>

theorem build_request_frame_examples:
  "build_request_frame FUNC_WRITE AUTO_PUSH_REG 1 [0x01] = Some ''55AA00101700010001D8''
   \<and> fromhex ''55AA00101700010001D8''
       = Some [0x55, 0xAA, 0x00, 0x10, 0x17, 0x00, 0x01, 0x00, 0x01, 0xD8]
   \<and> request_full_frame FUNC_WRITE AUTO_PUSH_REG 1 [0x01]
       = Some [0x55, 0xAA, 0x00, 0x10, 0x17, 0x00, 0x01, 0x00, 0x01, 0xD8]
   \<and> build_request_frame FUNC_READ VERSION_REG VERSION_DATA_LEN []
       = Some ''55AA000300000F00EF''
   \<and> fromhex ''55AA000300000F00EF''
       = Some [0x55, 0xAA, 0x00, 0x03, 0x00, 0x00, 0x0F, 0x00, 0xEF]
   \<and> request_full_frame FUNC_READ VERSION_REG VERSION_DATA_LEN []
       = Some [0x55, 0xAA, 0x00, 0x03, 0x00, 0x00, 0x0F, 0x00, 0xEF]"
  by code_simp

section \<open>The claims about the parser\<close>

text \<open>
  C4. A buffer of at least 8 bytes that starts with AA 55 and whose function byte has
  bit 0x80 set is parsed as an error response: \<open>is_error\<close> is set, \<open>error_code\<close> is the
  function byte masked with 0x7F, and no payload is extracted (\<open>data\<close> stays empty),
  whatever the rest of the buffer holds.
\<close>

theorem parse_response_device_error:
  assumes "8 \<le> length r"
    and "take 2 r = [0xAA, 0x55]"
    and "uint (r ! 3) AND 0x80 \<noteq> 0"
  shows "\<exists>p. parse_response r = Inr p \<and> is_error p
             \<and> error_code p = Some (uint (r ! 3) AND 0x7F)
             \<and> data p = [] \<and> \<not> lrc_valid p"
proof -
  have i2: "py_index r 2 = Some (uint (r ! 2))" and i3: "py_index r 3 = Some (uint (r ! 3))"
    using assms(1) py_index_nat [of 2 r] py_index_nat [of 3 r] by simp_all
  have il: "py_index r (- 1) = Some (uint (last r))"
    using assms(1) by (intro py_index_last) auto
  show ?thesis
    using assms by (simp add: parse_response_def i2 i3 il Let_def slice_def RESP_HEAD_GENERAL_def)
qed

theorem parse_response_device_error_witness:
  "8 \<le> length [0xAA, 0x55, 0x00, 0x83, 0x17, 0x00, 0x01, 0x00, 0x42, 0x99 :: 8 word]
   \<and> take 2 [0xAA, 0x55, 0x00, 0x83, 0x17, 0x00, 0x01, 0x00, 0x42, 0x99 :: 8 word]
       = [0xAA, 0x55]
   \<and> uint ([0xAA, 0x55, 0x00, 0x83, 0x17, 0x00, 0x01, 0x00, 0x42, 0x99 :: 8 word] ! 3)
         AND 0x80 \<noteq> 0
   \<and> (\<exists>p. parse_response [0xAA, 0x55, 0x00, 0x83, 0x17, 0x00, 0x01, 0x00, 0x42, 0x99] = Inr p
            \<and> is_error p \<and> error_code p = Some 3 \<and> data p = [] \<and> \<not> lrc_valid p)"
proof -
  let ?r = "[0xAA, 0x55, 0x00, 0x83, 0x17, 0x00, 0x01, 0x00, 0x42, 0x99] :: bytes"
  have h: "8 \<le> length ?r" "take 2 ?r = [0xAA, 0x55]" "uint (?r ! 3) AND 0x80 \<noteq> 0"
    by simp_all
  show ?thesis
    using h parse_response_device_error [OF h] by simp
qed

text \<open>
  C5. A buffer of fewer than 8 bytes is rejected as too short (the caller gets \<open>None\<close>),
  and for no buffer at all does an index leave the buffer: the branch of the caught
  exception is never taken.
\<close>

theorem parse_response_total:
  "(length r < 8 \<longrightarrow> parse_response r = Inl FrameTooShort
                          \<and> returned_dict (parse_response r) = None)
   \<and> parse_response r \<noteq> Inl CaughtException"
  by (simp add: parse_response_short parse_response_no_exception returned_dict_def)

theorem parse_response_total_witness:
  "length [0xAA, 0x55, 0x00, 0x03, 0x00, 0x00, 0x01 :: 8 word] < 8
   \<and> parse_response [0xAA, 0x55, 0x00, 0x03, 0x00, 0x00, 0x01] = Inl FrameTooShort
   \<and> returned_dict (parse_response [0xAA, 0x55, 0x00, 0x03, 0x00, 0x00, 0x01]) = None
   \<and> parse_response [0xAA, 0x55, 0x00, 0x03, 0x00, 0x00, 0x01] \<noteq> Inl CaughtException"
  using parse_response_total [of "[0xAA, 0x55, 0x00, 0x03, 0x00, 0x00, 0x01]"]
  by (simp add: returned_dict_def)

text \<open>
  C9 (as amended). For a buffer that reaches the verification step (at least 9 bytes,
  head AA 55, function read or write), \<open>parse_response\<close> computes the checksum over all
  bytes of the buffer but the last, compares it with the last byte of the buffer, and
  records the outcome in \<open>lrc_valid\<close>; the dictionary is returned whether or not they
  agree. The range is the declared extent, 8 + \<open>data_len\<close>, exactly when the buffer is
  8 + \<open>data_len\<close> + 1 bytes long.
\<close>

theorem parse_response_checksum_over_buffer:
  assumes "9 \<le> length r"
    and "take 2 r = [0xAA, 0x55]"
    and "uint (r ! 3) = FUNC_READ \<or> uint (r ! 3) = FUNC_WRITE"
  shows "\<exists>p. parse_response r = Inr p
             \<and> lrc_calc p = calc_lrc (slice r 0 (length r - 1))
             \<and> lrc_recv p = uint (r ! (length r - 1))
             \<and> lrc_valid p = (lrc_calc p = lrc_recv p)
             \<and> (int (length r) = 8 + data_len p + 1 \<longrightarrow>
                  lrc_calc p = calc_lrc (slice r 0 (nat (8 + data_len p)))
                  \<and> lrc_recv p = uint (r ! nat (8 + data_len p)))"
proof -
  obtain p where p: "parse_response r = Inr p" "lrc_calc p = calc_lrc (butlast r)"
      "lrc_recv p = uint (last r)" "lrc_valid p = (calc_lrc (butlast r) = uint (last r))"
    using parse_response_checksum_step [OF assms] by blast
  have nonempty: "r \<noteq> []"
    using assms(1) by auto
  have b: "butlast r = slice r 0 (length r - 1)"
    by (simp add: slice_def butlast_conv_take)
  have l: "last r = r ! (length r - 1)"
    using nonempty by (simp add: last_conv_nth)
  have exact: "nat (8 + data_len p) = length r - 1" if "int (length r) = 8 + data_len p + 1"
    using that by linarith
  show ?thesis
    using p b l exact by auto
qed

theorem parse_response_checksum_over_buffer_witness:
  "9 \<le> length [0xAA, 0x55, 0x00, 0x03, 0x00, 0x00, 0x01, 0x00, 0x42, 0xBB :: 8 word]
   \<and> take 2 [0xAA, 0x55, 0x00, 0x03, 0x00, 0x00, 0x01, 0x00, 0x42, 0xBB :: 8 word]
       = [0xAA, 0x55]
   \<and> (uint ([0xAA, 0x55, 0x00, 0x03, 0x00, 0x00, 0x01, 0x00, 0x42, 0xBB :: 8 word] ! 3)
         = FUNC_READ
        \<or> uint ([0xAA, 0x55, 0x00, 0x03, 0x00, 0x00, 0x01, 0x00, 0x42, 0xBB :: 8 word] ! 3)
         = FUNC_WRITE)
   \<and> parse_response [0xAA, 0x55, 0x00, 0x03, 0x00, 0x00, 0x01, 0x00, 0x42, 0xBB]
       = Inr \<lparr>is_error = False, reserved = 0, func_code = 3, reg_addr = 0,
               data_len = 1, actual_data_len = 1, data = [0x42], lrc_valid = True,
               lrc_calc = 0xBB, lrc_recv = 0xBB, error_code = None\<rparr>
   \<and> int (length [0xAA, 0x55, 0x00, 0x03, 0x00, 0x00, 0x01, 0x00, 0x42, 0xBB :: 8 word])
       = 8 + 1 + 1
   \<and> calc_lrc (slice [0xAA, 0x55, 0x00, 0x03, 0x00, 0x00, 0x01, 0x00, 0x42, 0xBB] 0 (8 + 1))
       = 0xBB
   \<and> uint ([0xAA, 0x55, 0x00, 0x03, 0x00, 0x00, 0x01, 0x00, 0x42, 0xBB :: 8 word] ! (8 + 1))
       = 0xBB"
proof -
  let ?r = "[0xAA, 0x55, 0x00, 0x03, 0x00, 0x00, 0x01, 0x00, 0x42, 0xBB] :: bytes"
  have h: "9 \<le> length ?r" "take 2 ?r = [0xAA, 0x55]"
    "uint (?r ! 3) = FUNC_READ \<or> uint (?r ! 3) = FUNC_WRITE"
    by (simp_all add: FUNC_READ_def)
  obtain p where p: "parse_response ?r = Inr p"
      "lrc_calc p = calc_lrc (slice ?r 0 (length ?r - 1))"
      "lrc_recv p = uint (?r ! (length ?r - 1))"
      "int (length ?r) = 8 + data_len p + 1 \<longrightarrow>
         lrc_calc p = calc_lrc (slice ?r 0 (nat (8 + data_len p)))
         \<and> lrc_recv p = uint (?r ! nat (8 + data_len p))"
    using parse_response_checksum_over_buffer [OF h] by blast
  have whole: "parse_response ?r
       = Inr \<lparr>is_error = False, reserved = 0, func_code = 3, reg_addr = 0,
               data_len = 1, actual_data_len = 1, data = [0x42], lrc_valid = True,
               lrc_calc = 0xBB, lrc_recv = 0xBB, error_code = None\<rparr>"
    by code_simp
  then have fields: "data_len p = 1" "lrc_calc p = 0xBB" "lrc_recv p = 0xBB"
    using p(1) by auto
  have "calc_lrc (slice ?r 0 (8 + 1)) = 0xBB" "uint (?r ! (8 + 1)) = 0xBB"
    using p(4) fields by simp_all
  then show ?thesis
    using h whole by simp
qed

text \<open>
  C9 as stated fails: in a buffer with one byte after the frame, the checksum over the
  declared extent (the first 8 + 1 bytes) agrees with the byte at offset 8 + 1, but
  \<open>parse_response\<close> compares the checksum of the first 10 bytes with the last byte and
  records \<open>lrc_valid\<close> false.
\<close>

theorem checksum_not_at_declared_offset:
  "parse_response [0xAA, 0x55, 0x00, 0x03, 0x00, 0x00, 0x01, 0x00, 0x42, 0xBB, 0x01]
     = Inr \<lparr>is_error = False, reserved = 0, func_code = 3, reg_addr = 0,
             data_len = 1, actual_data_len = 2, data = [0x42], lrc_valid = False,
             lrc_calc = 0, lrc_recv = 1, error_code = None\<rparr>
   \<and> calc_lrc (slice [0xAA, 0x55, 0x00, 0x03, 0x00, 0x00, 0x01, 0x00, 0x42, 0xBB, 0x01]
                  0 (8 + 1))
       = uint ([0xAA, 0x55, 0x00, 0x03, 0x00, 0x00, 0x01, 0x00, 0x42, 0xBB, 0x01 :: 8 word]
                 ! (8 + 1))"
  by code_simp

section \<open>The claim about the reader\<close>



section \<open>The claims about register access\<close>

text \<open>
  C6 (as amended). For a length in 1..512 and a 16-bit register address, \<open>read_register\<close>
  builds the read request, flushes and writes it, and gives up (the caller gets \<open>None\<close>)
  when the port does not take the whole frame. Otherwise it sleeps 0.2 s and reads with
  the general-response head and the command timeout; it gives up when nothing was
  received, and when the response is shorter than 8 bytes, has another head, has the
  top bit of its function byte set, or has a function byte other than read. In every
  other case it returns the payload that \<open>parse_response\<close> extracted. The checksum plays
  no part: a response whose \<open>lrc_valid\<close> is false is returned like any other.
\<close>

theorem read_register_outcomes:
  assumes "1 \<le> read_len" and "read_len \<le> 512" and "0 \<le> addr" and "addr < 65536"
  shows "\<exists>frame. request_full_frame FUNC_READ addr read_len [] = Some frame
     \<and> (let sent = ser \<lparr> effects := effects ser @ [FlushOutput, Write frame] \<rparr>
        in if write_report ser frame \<noteq> Some (length frame)
           then read_register ser addr read_len = (sent, Returns (Inl SendFailed))
           else case read_serial_data (sleep 0.2 sent) TIMEOUT_CMD (Some RESP_HEAD_GENERAL) of
             (ser', Unfinished) \<Rightarrow> read_register ser addr read_len = (ser', Unfinished)
           | (ser', Returns None) \<Rightarrow>
               read_register ser addr read_len = (ser', Returns (Inl NoResponse))
           | (ser', Returns (Some r)) \<Rightarrow>
               read_register ser addr read_len
               = (ser', Returns
                    (if length r < 8 \<or> take 2 r \<noteq> [0xAA, 0x55]
                        \<or> uint (r ! 3) AND 0x80 \<noteq> 0 \<or> uint (r ! 3) \<noteq> FUNC_READ
                     then Inl OperationFailed
                     else Inr (let n = from_bytes_little (slice r 6 8)
                               in if 0 < n \<and> 8 + n + 1 \<le> int (length r)
                                  then slice r 8 (nat (8 + n))
                                  else if 0 < n \<and> 8 < length r then drop 8 (butlast r)
                                  else []))))"
proof -
  obtain frame where frame: "request_full_frame FUNC_READ addr read_len [] = Some frame"
      "build_request_frame FUNC_READ addr read_len [] = Some (hex_upper frame)"
    using read_frame_built [of read_len addr FUNC_READ "[]"] assms
    by (auto simp: FUNC_READ_def)
  let ?sent = "ser \<lparr> effects := effects ser @ [FlushOutput, Write frame] \<rparr>"
  show ?thesis
  proof (cases "write_report ser frame = Some (length frame)")
    case False
    then have "read_register ser addr read_len = (?sent, Returns (Inl SendFailed))"
      using assms(1,2) by (simp add: read_register_def frame(2) send_hex_cmd_frame)
    then show ?thesis
      using frame(1) False by (simp add: Let_def)
  next
    case True
    obtain ser' res where
      rs: "read_serial_data (sleep 0.2 ?sent) TIMEOUT_CMD (Some RESP_HEAD_GENERAL) = (ser', res)"
      by (cases "read_serial_data (sleep 0.2 ?sent) TIMEOUT_CMD (Some RESP_HEAD_GENERAL)")
    have "read_register ser addr read_len
          = (case read_serial_data (sleep 0.2 ?sent) TIMEOUT_CMD (Some RESP_HEAD_GENERAL) of
               (ser, Unfinished) \<Rightarrow> (ser, Unfinished)
             | (ser, Returns None) \<Rightarrow> (ser, Returns (Inl NoResponse))
             | (ser, Returns (Some response)) \<Rightarrow>
                 (case parse_response response of
                    Inl _ \<Rightarrow> (ser, Returns (Inl OperationFailed))
                  | Inr parsed \<Rightarrow>
                      if is_error parsed \<or> func_code parsed \<noteq> FUNC_READ
                      then (ser, Returns (Inl OperationFailed))
                      else (ser, Returns (Inr (data parsed)))))"
      using assms(1,2) True by (simp add: read_register_def frame(2) send_hex_cmd_frame)
    then show ?thesis
      using frame(1) True rs
      by (cases res) (auto simp: read_decision Let_def split: option.splits)
  qed
qed

theorem read_register_outcomes_witness:
  "(1 :: int) \<le> 1 \<and> (1 :: int) \<le> 512 \<and> (0 :: int) \<le> 0 \<and> (0 :: int) < 65536
   \<and> read_register
         (fresh_port [Poll 0.01 10 [0xAA, 0x55, 0x00, 0x03, 0x00, 0x00, 0x01, 0x00, 0x42, 0xBB]
                        0.02])
         0 1
       = (fresh_port []
            \<lparr> effects := [FlushOutput,
                          Write [0x55, 0xAA, 0x00, 0x03, 0x00, 0x00, 0x01, 0x00, 0xFD],
                          Sleep 0.2] \<rparr>,
          Returns (Inr [0x42]))"
proof -
  let ?ser = "fresh_port [Poll 0.01 10 [0xAA, 0x55, 0x00, 0x03, 0x00, 0x00, 0x01, 0x00, 0x42, 0xBB]
                            0.02]"
  let ?frame = "[0x55, 0xAA, 0x00, 0x03, 0x00, 0x00, 0x01, 0x00, 0xFD] :: bytes"
  have built: "request_full_frame FUNC_READ 0 1 [] = Some ?frame"
    by code_simp
  have reading: "read_serial_data
         (sleep 0.2 (?ser \<lparr> effects := effects ?ser @ [FlushOutput, Write ?frame] \<rparr>))
         TIMEOUT_CMD (Some RESP_HEAD_GENERAL)
       = (fresh_port [] \<lparr> effects := [FlushOutput, Write ?frame, Sleep 0.2] \<rparr>,
          Returns (Some [0xAA, 0x55, 0x00, 0x03, 0x00, 0x00, 0x01, 0x00, 0x42, 0xBB]))"
    by (simp add: read_serial_data_def sleep_def TIMEOUT_CMD_def RESP_HEAD_GENERAL_def
          starts_with_def fresh_port_def)
  have taken: "write_report ?ser ?frame = Some (length ?frame)"
    by (simp add: fresh_port_def)
  show ?thesis
    using read_register_outcomes [of 1 0 ?ser] built reading taken
    by (simp add: Let_def slice_def FUNC_READ_def)
qed

text \<open>
  C6 as stated fails: the response below has a wrong checksum (0xFF where 0xBB is
  computed), \<open>parse_response\<close> records \<open>lrc_valid\<close> false, and \<open>read_register\<close> returns the
  payload all the same.
\<close>

theorem read_register_ignores_checksum:
  "read_register
     (fresh_port [Poll 0.01 10 [0xAA, 0x55, 0x00, 0x03, 0x00, 0x00, 0x01, 0x00, 0x42, 0xFF] 0.02])
     0 1
   = (fresh_port []
        \<lparr> effects := [FlushOutput,
                      Write [0x55, 0xAA, 0x00, 0x03, 0x00, 0x00, 0x01, 0x00, 0xFD],
                      Sleep 0.2] \<rparr>,
      Returns (Inr [0x42]))
   \<and> parse_response [0xAA, 0x55, 0x00, 0x03, 0x00, 0x00, 0x01, 0x00, 0x42, 0xFF]
     = Inr \<lparr>is_error = False, reserved = 0, func_code = 3, reg_addr = 0,
        data_len = 1, actual_data_len = 1, data = [0x42], lrc_valid = False,
        lrc_calc = 0xBB, lrc_recv = 0xFF, error_code = None\<rparr>"
proof -
  have built: "request_full_frame 3 0 1 []
               = Some [0x55, 0xAA, 0x00, 0x03, 0x00, 0x00, 0x01, 0x00, 0xFD]"
    by code_simp
  have parsed: "parse_response [0xAA, 0x55, 0x00, 0x03, 0x00, 0x00, 0x01, 0x00, 0x42, 0xFF]
     = Inr \<lparr>is_error = False, reserved = 0, func_code = 3, reg_addr = 0,
        data_len = 1, actual_data_len = 1, data = [0x42], lrc_valid = False,
        lrc_calc = 0xBB, lrc_recv = 0xFF, error_code = None\<rparr>"
    by code_simp
  show ?thesis
    by (simp add: read_register_def build_request_frame_hex built send_hex_cmd_frame sleep_def
          read_serial_data_def TIMEOUT_CMD_def RESP_HEAD_GENERAL_def starts_with_def parsed
          FUNC_READ_def fresh_port_def)
qed




section \<open>The claim about the single-port adapter script\<close>




end
